theory Spec2Isabelle
  imports Complex_Main "HOL-Library.Word"
begin

chapter \<open>Sequence profiles, Plan7 HMMs and global alignment\<close>

text \<open>
  A shallow embedding of the Go package \<open>seq\<close>: probabilities and emission tables and
  the slicing of a profile HMM (\<open>hmm.go\<close>), frequency profiles and their conversion to
  log-odds profiles (the profile source file), and the global alignment that the test
  file exercises. The first part translates the code; the second part states and proves
  the claims C1 to C10 about it.
\<close>

section \<open>Residues, alphabets and machine numbers\<close>

text \<open>
  A \<open>Residue\<close> is one byte (the tests build sequences with \<open>Residue(s[i])\<close> from the bytes
  of a string, and \<open>Add\<close> compares against the byte \<open>'X'\<close>). An alphabet is an ordered
  list of residues. Go's \<open>int\<close> is the 64-bit machine integer: \<open>+\<close> and \<open>-\<close> wrap, and
  \<open>sint\<close> reads the signed value.
\<close>

type_synonym Residue = char

type_synonym Alphabet = "Residue list"

type_synonym go_int = "64 word"

text \<open>
  \<open>Prob\<close> is Go's \<open>float64\<close>. The functions below never look inside a float: they
  compare with \<open>MinProb\<close>, store the constant \<open>0\<close>, and call division, negation,
  \<open>math.Log\<close>, \<open>math.Exp\<close> and the conversion \<open>float64(n)\<close>. The float type is
  therefore a type parameter \<open>'f\<close> and these operations are passed in as a record, so
  that every theorem holds for whatever the machine's operations compute (rounding,
  infinities and NaN included). Comparison with \<open>math.MaxFloat64\<close> by \<open>==\<close> is equality
  of values, since that constant is neither NaN nor a zero.
\<close>

record 'f float64_ops =
  F_zero :: 'f
  MaxFloat64 :: 'f
  F_neg :: "'f \<Rightarrow> 'f"
  F_div :: "'f \<Rightarrow> 'f \<Rightarrow> 'f"
  math_Log :: "'f \<Rightarrow> 'f"
  math_Exp :: "'f \<Rightarrow> 'f"
  float64_of_int :: "go_int \<Rightarrow> 'f"

text \<open>
  The operations read over the real numbers, with \<open>math.MaxFloat64 = 2^1024 - 2^971\<close>:
  the interpretation used to run the model on concrete inputs.
\<close>

definition real_float64 :: "real float64_ops" where
  "real_float64 =
     \<lparr>F_zero = 0, MaxFloat64 = 2 ^ 1024 - 2 ^ 971, F_neg = uminus, F_div = (/),
      math_Log = ln, math_Exp = exp, float64_of_int = (\<lambda>n. real_of_int (sint n))\<rparr>"

section \<open>Probabilities (hmm.go)\<close>

definition MinProb :: "'f float64_ops \<Rightarrow> 'f" where
  "MinProb F = MaxFloat64 F"

definition IsMin :: "'f float64_ops \<Rightarrow> 'f \<Rightarrow> bool" where
  "IsMin F p \<longleftrightarrow> p = MinProb F"

definition Ratio :: "'f float64_ops \<Rightarrow> 'f \<Rightarrow> 'f" where
  "Ratio F p = (if IsMin F p then F_zero F else math_Exp F (F_neg F p))"

section \<open>Emission tables (hmm.go)\<close>

text \<open>
  \<open>EProbs\<close> is a Go map from residues to probabilities. Reading a key that is absent
  (or reading a nil map) gives the zero value of the element type and no error.
\<close>

type_synonym 'f EProbs = "Residue \<rightharpoonup> 'f"

definition NewEProbs :: "'f float64_ops \<Rightarrow> Alphabet \<Rightarrow> 'f EProbs" where
  "NewEProbs F alphabet = fold (\<lambda>residue ep. ep(residue \<mapsto> MinProb F)) alphabet Map.empty"

definition EmitProb :: "'f float64_ops \<Rightarrow> 'f EProbs \<Rightarrow> Residue \<Rightarrow> 'f" where
  "EmitProb F ep r = (case ep r of None \<Rightarrow> F_zero F | Some p \<Rightarrow> p)"

section \<open>Reading and writing probabilities (hmm.go)\<close>

text \<open>
  \<open>String\<close> and \<open>NewProb\<close> go through \<open>fmt.Sprintf("%v", f)\<close> and
  \<open>strconv.ParseFloat(s, 64)\<close>, library functions on IEEE doubles that are passed in
  here as \<open>format\<close> and \<open>parse\<close> (\<open>None\<close>: the parser returned an error).
  \<open>invalidProb\<close> is the NaN that \<open>NewProb\<close> returns beside its error.
\<close>

datatype error = ParseError

definition Prob_String :: "'f float64_ops \<Rightarrow> ('f \<Rightarrow> string) \<Rightarrow> 'f \<Rightarrow> string" where
  "Prob_String F format p = (if IsMin F p then ''*'' else format p)"

definition NewProb ::
  "'f float64_ops \<Rightarrow> (string \<Rightarrow> 'f option) \<Rightarrow> 'f \<Rightarrow> string \<Rightarrow> 'f \<times> error option" where
  "NewProb F parse invalidProb fstr =
     (if fstr = ''*'' then (MinProb F, None)
      else case parse fstr of
             None \<Rightarrow> (invalidProb, Some ParseError)
           | Some f \<Rightarrow> (f, None))"

section \<open>Failures\<close>

text \<open>
  The code reports every failure by a panic: an explicit \<open>panic(...)\<close> in \<open>Add\<close> and
  \<open>Profile\<close>, and Go's run-time panics in \<open>Slice\<close> (which has no check of its own).
  Each is a value here. The first four are named after the error kinds of the
  specification; the others are the run-time errors of \<open>make\<close>, of a slice expression,
  of an index expression and of a nil pointer.
\<close>

datatype panic =
    LengthMismatch
  | UnrecognizedResidue Residue
  | ColumnCountMismatch
  | AlphabetMismatch
  | MakesliceLenOutOfRange
  | SliceBoundsOutOfRange
  | IndexOutOfRange
  | NilDereference

section \<open>Frequency profiles and profiles (profile source file)\<close>

text \<open>
  Modelled from the spec: the type \<open>Sequence\<close> is declared in a file that is not among
  the sources. A sequence is a finite ordered sequence of residues; \<open>Add\<close> uses its field
  \<open>Residues\<close> and its method \<open>Len\<close>, the number of residues.
\<close>

record Sequence =
  Residues :: "Residue list"

definition Sequence_Len :: "Sequence \<Rightarrow> nat" where
  "Sequence_Len s = length (Residues s)"

text \<open>
  Modelled from the spec: \<open>Alphabet.Equals\<close> is declared in a file that is not among the
  sources; two alphabets are equal iff they hold the same residues in the same order.
\<close>

definition Equals :: "Alphabet \<Rightarrow> Alphabet \<Rightarrow> bool" where
  "Equals a b \<longleftrightarrow> a = b"

text \<open>
  A column of a frequency profile is a Go map from residues to counts. \<open>count\<close> is the
  read \<open>column[r]\<close> (zero for an absent key) and \<open>incr\<close> is the statement
  \<open>column[r] += 1\<close>. The fields \<open>Alphabet\<close> of the two profile types are \<open>FAlphabet\<close>
  and \<open>PAlphabet\<close>.
\<close>

type_synonym column = "Residue \<rightharpoonup> go_int"

definition count :: "column \<Rightarrow> Residue \<Rightarrow> go_int" where
  "count col r = (case col r of None \<Rightarrow> 0 | Some n \<Rightarrow> n)"

definition incr :: "column \<Rightarrow> Residue \<Rightarrow> column" where
  "incr col r = col(r \<mapsto> count col r + 1)"

text \<open>
  The two constructors take the number of columns, a length here (a negative \<open>int\<close> would
  make \<open>make\<close> panic; \<open>Profile\<close> calls \<open>NewProfileAlphabet\<close> with \<open>fp.Len()\<close>).
\<close>

record FrequencyProfile =
  Freqs :: "column list"
  FAlphabet :: Alphabet

record 'f Profile =
  Emissions :: "'f EProbs list"
  PAlphabet :: Alphabet

definition NewProfileAlphabet :: "'f float64_ops \<Rightarrow> nat \<Rightarrow> Alphabet \<Rightarrow> 'f Profile" where
  "NewProfileAlphabet F columns alphabet =
     \<lparr>Emissions = map (\<lambda>i. NewEProbs F alphabet) [0..<columns], PAlphabet = alphabet\<rparr>"

definition NewFrequencyProfileAlphabet :: "nat \<Rightarrow> Alphabet \<Rightarrow> FrequencyProfile" where
  "NewFrequencyProfileAlphabet columns alphabet =
     \<lparr>Freqs = map (\<lambda>i. fold (\<lambda>residue col. col(residue \<mapsto> 0)) alphabet Map.empty) [0..<columns],
      FAlphabet = alphabet\<rparr>"

definition Len :: "FrequencyProfile \<Rightarrow> nat" where
  "Len fp = length (Freqs fp)"

text \<open>
  \<open>Add\<close> updates the columns in place, one per iteration, and can panic in the middle of
  the loop. The model passes the profile through and returns it together with the
  outcome (\<open>None\<close>: returned normally), so that the state a panic leaves behind is
  visible. The columns of a profile are distinct maps (each is made by its own \<open>make\<close>),
  so a list of maps represents them.
\<close>

definition incr_column :: "FrequencyProfile \<Rightarrow> nat \<Rightarrow> Residue \<Rightarrow> FrequencyProfile" where
  "incr_column fp column r = fp\<lparr>Freqs := (Freqs fp)[column := incr (Freqs fp ! column) r]\<rparr>"

function Add_loop :: "FrequencyProfile \<Rightarrow> Sequence \<Rightarrow> nat \<Rightarrow> panic option \<times> FrequencyProfile" where
  "Add_loop fp s column =
     (if column < Len fp then
        (if column < length (Residues s) then
           (let r = Residues s ! column in
            if (Freqs fp ! column) r \<noteq> None then
              Add_loop (incr_column fp column r) s (Suc column)
            else if (Freqs fp ! column) CHR ''X'' \<noteq> None then
              Add_loop (incr_column fp column CHR ''X'') s (Suc column)
            else (Some (UnrecognizedResidue r), fp))
         else (Some IndexOutOfRange, fp))
      else (None, fp))"
  by pat_completeness auto
termination
  by (relation "measure (\<lambda>(fp, s, column). Len fp - column)")
    (auto simp: Len_def incr_column_def)

declare Add_loop.simps [simp del]

definition Add :: "FrequencyProfile \<Rightarrow> Sequence \<Rightarrow> panic option \<times> FrequencyProfile" where
  "Add fp s =
     (if Len fp \<noteq> Sequence_Len s then (Some LengthMismatch, fp)
      else Add_loop fp s 0)"

text \<open>
  \<open>freqTotal\<close> adds up the values of a map. Go visits the entries in an unspecified
  order; machine addition is commutative, so the result is the sum over the keys.
\<close>

definition freqTotal :: "column \<Rightarrow> go_int" where
  "freqTotal col = (\<Sum>r \<in> dom col. the (col r))"

text \<open>
  \<open>Profile\<close> (the method \<open>FrequencyProfile.Profile\<close>, \<open>toProfile\<close> in the specification).
  It only reads \<open>fp\<close> and \<open>null\<close>; the profile \<open>p\<close> it fills is its own.
\<close>

definition set_emission :: "'f Profile \<Rightarrow> nat \<Rightarrow> Residue \<Rightarrow> 'f \<Rightarrow> 'f Profile" where
  "set_emission p column residue v =
     p\<lparr>Emissions := (Emissions p)[column := (Emissions p ! column)(residue \<mapsto> v)]\<rparr>"

definition nullemit_of :: "'f float64_ops \<Rightarrow> FrequencyProfile \<Rightarrow> go_int \<Rightarrow> Residue \<rightharpoonup> 'f" where
  "nullemit_of F null nulltot =
     fold (\<lambda>residue m.
             m(residue \<mapsto> F_div F (float64_of_int F (count (Freqs null ! 0) residue))
                                   (float64_of_int F nulltot)))
       (FAlphabet null) Map.empty"

definition Profile_residue ::
  "'f float64_ops \<Rightarrow> FrequencyProfile \<Rightarrow> FrequencyProfile \<Rightarrow> (Residue \<rightharpoonup> 'f) \<Rightarrow> nat \<Rightarrow> go_int \<Rightarrow>
   Residue \<Rightarrow> 'f Profile \<Rightarrow> 'f Profile" where
  "Profile_residue F fp null nullemit column tot residue p =
     (if count (Freqs null ! 0) residue = 0 \<or> count (Freqs fp ! column) residue = 0 then
        set_emission p column residue (MinProb F)
      else
        (let prob = F_div F (float64_of_int F (count (Freqs fp ! column) residue))
                            (float64_of_int F tot);
             logOdds = F_neg F (math_Log F (F_div F prob
                         (case nullemit residue of None \<Rightarrow> F_zero F | Some x \<Rightarrow> x)))
         in set_emission p column residue logOdds))"

definition Profile_column ::
  "'f float64_ops \<Rightarrow> FrequencyProfile \<Rightarrow> FrequencyProfile \<Rightarrow> (Residue \<rightharpoonup> 'f) \<Rightarrow> nat \<Rightarrow>
   'f Profile \<Rightarrow> 'f Profile" where
  "Profile_column F fp null nullemit column p =
     (let tot = freqTotal (Freqs fp ! column)
      in fold (Profile_residue F fp null nullemit column tot) (FAlphabet fp) p)"

definition FrequencyProfile_Profile ::
  "'f float64_ops \<Rightarrow> FrequencyProfile \<Rightarrow> FrequencyProfile \<Rightarrow> panic + 'f Profile" where
  "FrequencyProfile_Profile F fp null =
     (if Len null \<noteq> 1 then Inl ColumnCountMismatch
      else if \<not> Equals (FAlphabet fp) (FAlphabet null) then Inl AlphabetMismatch
      else
        (let p = NewProfileAlphabet F (Len fp) (FAlphabet fp);
             nulltot = freqTotal (Freqs null ! 0);
             nullemit = nullemit_of F null nulltot
         in Inr (fold (Profile_column F fp null nullemit) [0..<Len fp] p)))"

section \<open>The data-model invariant and closed forms for \<open>Add\<close>\<close>

text \<open>
  The invariant of a frequency profile: the keys of every column are exactly the
  residues of the alphabet (\<open>NewFrequencyProfileAlphabet\<close> establishes it, \<open>Add\<close> keeps
  it). \<open>Add\<close> itself tests membership on the column's keys.
\<close>

definition wf_FrequencyProfile :: "FrequencyProfile \<Rightarrow> bool" where
  "wf_FrequencyProfile fp \<longleftrightarrow> (\<forall>col \<in> set (Freqs fp). dom col = set (FAlphabet fp))"

text \<open>
  \<open>Add_target col r\<close> is the key that one iteration of \<open>Add\<close> increments in column \<open>col\<close>
  for the residue \<open>r\<close> (\<open>None\<close>: the iteration panics), and \<open>Add_range fp s lo hi\<close> is the
  profile after the iterations \<open>lo, \<dots>, hi - 1\<close> have run on \<open>fp\<close>. They are used to state
  what the loop leaves behind.
\<close>

definition Add_target :: "column \<Rightarrow> Residue \<Rightarrow> Residue option" where
  "Add_target col r =
     (if col r \<noteq> None then Some r else if col CHR ''X'' \<noteq> None then Some CHR ''X'' else None)"

definition Add_range :: "FrequencyProfile \<Rightarrow> Sequence \<Rightarrow> nat \<Rightarrow> nat \<Rightarrow> FrequencyProfile" where
  "Add_range fp s lo hi =
     fp\<lparr>Freqs := map (\<lambda>c. if lo \<le> c \<and> c < hi
                            then incr (Freqs fp ! c) (the (Add_target (Freqs fp ! c) (Residues s ! c)))
                            else Freqs fp ! c) [0..<Len fp]\<rparr>"

text \<open>
  \<open>log_odds F bg bgTotal col colTotal r\<close> is the value \<open>Profile\<close> stores for residue \<open>r\<close> of
  a column \<open>col\<close> with total \<open>colTotal\<close>, against the background column \<open>bg\<close> with total
  \<open>bgTotal\<close>.
\<close>

definition log_odds :: "'f float64_ops \<Rightarrow> column \<Rightarrow> go_int \<Rightarrow> column \<Rightarrow> go_int \<Rightarrow> Residue \<Rightarrow> 'f" where
  "log_odds F bg bgTotal col colTotal r =
     (if count bg r = 0 \<or> count col r = 0 then MinProb F
      else F_neg F (math_Log F
             (F_div F (F_div F (float64_of_int F (count col r)) (float64_of_int F colTotal))
                      (F_div F (float64_of_int F (count bg r)) (float64_of_int F bgTotal)))))"

section \<open>Plan7 HMMs on a heap (hmm.go)\<close>

text \<open>
  \<open>Slice\<close> allocates an array, copies node structs into it and assigns to fields of one
  of them, and the claims about it are about what the source HMM looks like afterwards.
  The objects that an HMM reaches are therefore kept in an explicit heap: the backing
  arrays of \<open>[]HMMNode\<close> slices, the \<open>HMM\<close> structs, the emission maps and the backing
  arrays of alphabets. An address is an index into the list of objects of its kind, and
  allocation appends to that list. A pointer or a map value is \<open>Some\<close> address, or \<open>None\<close>
  for nil.

  A Go slice value is a window on a backing array: the array, the offset of its first
  element, its length and its capacity. The slice expression \<open>s[lo:hi]\<close> on a slice
  checks \<open>0 \<le> lo \<le> hi \<le> cap(s)\<close>: the upper bound is the capacity, not the length.
\<close>

type_synonym addr = nat

record slice =
  s_array :: addr
  s_off :: nat
  s_len :: nat
  s_cap :: nat

record 'f TProbs =
  MM :: 'f
  MI :: 'f
  MD :: 'f
  IM :: 'f
  II :: 'f
  DM :: 'f
  DD :: 'f

record 'f HMMNode =
  HMM :: "addr option"
  Residue :: Residue
  NodeNum :: go_int
  InsEmit :: "addr option"
  MatEmit :: "addr option"
  Transitions :: "'f TProbs"
  NeffM :: 'f
  NeffI :: 'f
  NeffD :: 'f

record HMM =
  Nodes :: slice
  HAlphabet :: slice
  Null :: "addr option"

record 'f heap =
  node_arrays :: "'f HMMNode list list"
  hmms :: "HMM list"
  eprobs :: "'f EProbs list"
  residue_arrays :: "Residue list list"

text \<open>The zero value of \<open>HMMNode\<close>, with which \<open>make\<close> fills a new array.\<close>

definition zero_HMMNode :: "'f float64_ops \<Rightarrow> 'f HMMNode" where
  "zero_HMMNode F =
     \<lparr>HMM = None, Residue = CHR 0x00, NodeNum = 0, InsEmit = None, MatEmit = None,
      Transitions = \<lparr>MM = F_zero F, MI = F_zero F, MD = F_zero F, IM = F_zero F,
                      II = F_zero F, DM = F_zero F, DD = F_zero F\<rparr>,
      NeffM = F_zero F, NeffI = F_zero F, NeffD = F_zero F\<rparr>"

text \<open>The elements \<open>s[0], \<dots>, s[len(s) - 1]\<close> of a slice of nodes.\<close>

definition elems :: "'f heap \<Rightarrow> slice \<Rightarrow> 'f HMMNode list" where
  "elems h s = take (s_len s) (drop (s_off s) (node_arrays h ! s_array s))"

text \<open>The slice \<open>s[lo:hi]\<close>, once its bounds have been checked.\<close>

definition reslice :: "slice \<Rightarrow> nat \<Rightarrow> nat \<Rightarrow> slice" where
  "reslice s lo hi =
     \<lparr>s_array = s_array s, s_off = s_off s + lo, s_len = hi - lo, s_cap = s_cap s - lo\<rparr>"

text \<open>
  \<open>copy(dst, src)\<close> writes the first \<open>min(len(dst), len(src))\<close> elements of \<open>src\<close> over
  the first elements of \<open>dst\<close>.
\<close>

definition copy_nodes :: "'f heap \<Rightarrow> slice \<Rightarrow> slice \<Rightarrow> 'f heap" where
  "copy_nodes h dst src =
     (let k = min (s_len dst) (s_len src);
          a = node_arrays h ! s_array dst
      in h\<lparr>node_arrays := (node_arrays h)
             [s_array dst := take (s_off dst) a @ take k (elems h src) @ drop (s_off dst + k) a]\<rparr>)"

text \<open>The assignment \<open>s[i].Transitions.X = v\<close>, written as an update \<open>f\<close> of the table.\<close>

definition set_Transitions ::
  "'f heap \<Rightarrow> slice \<Rightarrow> nat \<Rightarrow> ('f TProbs \<Rightarrow> 'f TProbs) \<Rightarrow> 'f heap" where
  "set_Transitions h s i f =
     (let a = node_arrays h ! s_array s; nd = a ! (s_off s + i)
      in h\<lparr>node_arrays := (node_arrays h)
             [s_array s := a[s_off s + i := nd\<lparr>Transitions := f (Transitions nd)\<rparr>]]\<rparr>)"

text \<open>
  \<open>Slice\<close>. The steps are those of the source, in its order: \<open>make\<close> (which panics on a
  negative length), the dereference of \<open>hmm\<close>, the slice expression
  \<open>hmm.Nodes[start:end]\<close> with its bounds check against the capacity, \<open>copy\<close>, the index
  \<open>last = len(nodes) - 1\<close> (out of range when the new slice is empty), the seven
  assignments, and the allocation of the new \<open>HMM\<close>. The result is the pointer returned
  or the panic, together with the heap at that moment. Memory is unbounded here: the
  other failure of \<open>make\<close>, a length too large to allocate, would need a source slice
  that does not fit in memory either.
\<close>

definition Slice ::
  "'f float64_ops \<Rightarrow> addr option \<Rightarrow> go_int \<Rightarrow> go_int \<Rightarrow> 'f heap \<Rightarrow> (panic + addr) \<times> 'f heap" where
  "Slice F hmm start end h =
     (if sint (end - start) < 0 then (Inl MakesliceLenOutOfRange, h)
      else
        let n = nat (sint (end - start));
            nodes = \<lparr>s_array = length (node_arrays h), s_off = 0, s_len = n, s_cap = n\<rparr>;
            h1 = h\<lparr>node_arrays := node_arrays h @ [replicate n (zero_HMMNode F)]\<rparr>
        in case hmm of
             None \<Rightarrow> (Inl NilDereference, h1)
           | Some p \<Rightarrow>
               if \<not> p < length (hmms h1) then (Inl NilDereference, h1)
               else
                 let this = hmms h1 ! p in
                 if \<not> (0 \<le> sint start \<and> sint start \<le> sint end \<and>
                        sint end \<le> int (s_cap (Nodes this)))
                 then (Inl SliceBoundsOutOfRange, h1)
                 else
                   let h2 = copy_nodes h1 nodes
                              (reslice (Nodes this) (nat (sint start)) (nat (sint end)))
                   in if n = 0 then (Inl IndexOutOfRange, h2)
                      else
                        let last = n - 1;
                            h3 = set_Transitions h2 nodes last (\<lambda>t. t\<lparr>MM := F_zero F\<rparr>);
                            h4 = set_Transitions h3 nodes last (\<lambda>t. t\<lparr>MI := MinProb F\<rparr>);
                            h5 = set_Transitions h4 nodes last (\<lambda>t. t\<lparr>MD := MinProb F\<rparr>);
                            h6 = set_Transitions h5 nodes last (\<lambda>t. t\<lparr>IM := F_zero F\<rparr>);
                            h7 = set_Transitions h6 nodes last (\<lambda>t. t\<lparr>II := MinProb F\<rparr>);
                            h8 = set_Transitions h7 nodes last (\<lambda>t. t\<lparr>DM := F_zero F\<rparr>);
                            h9 = set_Transitions h8 nodes last (\<lambda>t. t\<lparr>DD := MinProb F\<rparr>)
                        in (Inr (length (hmms h9)),
                            h9\<lparr>hmms := hmms h9 @
                               [\<lparr>Nodes = nodes, HAlphabet = HAlphabet this, Null = Null this\<rparr>]\<rparr>))"

section \<open>Predicates used in the statements about \<open>Slice\<close>\<close>

text \<open>
  A slice of nodes is well-formed in a heap when its backing array exists and its window
  lies inside it. \<open>heap_extends h h'\<close> says that every object of \<open>h\<close> is in \<open>h'\<close> at the same
  address with the same contents: \<open>h'\<close> differs from \<open>h\<close> by newly allocated objects only.
\<close>

definition wf_slice :: "'f heap \<Rightarrow> slice \<Rightarrow> bool" where
  "wf_slice h s \<longleftrightarrow>
     s_array s < length (node_arrays h) \<and> s_len s \<le> s_cap s \<and>
     s_off s + s_cap s \<le> length (node_arrays h ! s_array s)"

definition heap_extends :: "'f heap \<Rightarrow> 'f heap \<Rightarrow> bool" where
  "heap_extends h h' \<longleftrightarrow>
     length (node_arrays h) \<le> length (node_arrays h') \<and>
     take (length (node_arrays h)) (node_arrays h') = node_arrays h \<and>
     length (hmms h) \<le> length (hmms h') \<and>
     take (length (hmms h)) (hmms h') = hmms h \<and>
     eprobs h' = eprobs h \<and> residue_arrays h' = residue_arrays h"

text \<open>The transition table that \<open>Slice\<close> leaves in the last node.\<close>

definition forced_Transitions :: "'f float64_ops \<Rightarrow> 'f TProbs" where
  "forced_Transitions F =
     \<lparr>MM = F_zero F, MI = MinProb F, MD = MinProb F, IM = F_zero F,
      II = MinProb F, DM = F_zero F, DD = MinProb F\<rparr>"


text \<open>
  The array that a successful \<open>Slice\<close> builds from the elements \<open>lo, \<dots>, hi - 1\<close> of the
  source slice: a copy of them, with the transition table of the last one replaced.
\<close>

definition Slice_array :: "'f float64_ops \<Rightarrow> 'f heap \<Rightarrow> slice \<Rightarrow> nat \<Rightarrow> nat \<Rightarrow> 'f HMMNode list" where
  "Slice_array F h src lo hi =
     (let a = take (hi - lo) (drop (s_off src + lo) (node_arrays h ! s_array src))
      in a[hi - lo - 1 := (a ! (hi - lo - 1))\<lparr>Transitions := forced_Transitions F\<rparr>])"

text \<open>
  The map values an HMM holds (its null table and the emission tables of its nodes), and
  what it means for the HMM at \<open>q\<close> to be a deep copy of the one at \<open>p\<close>: they have
  different node arrays and no emission map in common.
\<close>

definition table_refs :: "'f heap \<Rightarrow> addr \<Rightarrow> addr option list" where
  "table_refs h p =
     Null (hmms h ! p) #
     concat (map (\<lambda>nd. [InsEmit nd, MatEmit nd]) (elems h (Nodes (hmms h ! p))))"

definition deep_copy :: "'f heap \<Rightarrow> addr \<Rightarrow> addr \<Rightarrow> bool" where
  "deep_copy h p q \<longleftrightarrow>
     s_array (Nodes (hmms h ! p)) \<noteq> s_array (Nodes (hmms h ! q)) \<and>
     (\<forall>r \<in> set (table_refs h p). r \<noteq> None \<longrightarrow> r \<notin> set (table_refs h q))"

text \<open>
  A heap with one HMM over the alphabet \<open>AC\<close>, used to run \<open>Slice\<close>. Its node slice has
  length 2 and capacity 3, as a slice grown by \<open>append\<close> has; the nodes use the null
  table (map 0) for insertions and a table of their own for matches.
\<close>

definition example_node :: "nat \<Rightarrow> real HMMNode" where
  "example_node k =
     \<lparr>HMM = Some 0, Residue = CHR ''A'', NodeNum = of_nat k, InsEmit = Some 0,
      MatEmit = Some k,
      Transitions = \<lparr>MM = 1, MI = 2, MD = 3, IM = 4, II = 5, DM = 6, DD = 7\<rparr>,
      NeffM = 1, NeffI = 1, NeffD = 1\<rparr>"

definition example_heap :: "real heap" where
  "example_heap =
     \<lparr>node_arrays = [[example_node 1, example_node 2, example_node 3]],
      hmms = [\<lparr>Nodes = \<lparr>s_array = 0, s_off = 0, s_len = 2, s_cap = 3\<rparr>,
               HAlphabet = \<lparr>s_array = 0, s_off = 0, s_len = 2, s_cap = 2\<rparr>,
               Null = Some 0\<rparr>],
      eprobs = [NewEProbs real_float64 ''AC'', NewEProbs real_float64 ''AC'',
                NewEProbs real_float64 ''AC'', NewEProbs real_float64 ''AC''],
      residue_arrays = [''AC'']\<rparr>"

section \<open>Global pairwise alignment\<close>

text \<open>
  Modelled from the spec: the alignment function (\<open>NeedlemanWunsch\<close>) is not among the
  sources; only its test is. The definitions follow section 4.3 of the specification.
  The scoring source (a substitution score for every pair of residues) and the gap
  penalty are parameters, since the specification leaves their values open, and so is
  the tie-breaking rule, which it restricts to one of two priority orders.
\<close>

type_synonym scoring = "Residue \<Rightarrow> Residue \<Rightarrow> int"

datatype tie_break = DiagonalFirst | HorizontalFirst

text \<open>
  Modelled from the spec: cell \<open>(i, j)\<close> of the score matrix holds the best cumulative
  score for aligning the first \<open>i\<close> residues of \<open>A\<close> against the first \<open>j\<close> residues of \<open>B\<close>,
  combining the diagonal transition (the substitution score of the residue pair), the
  vertical one (a residue of \<open>A\<close> against a gap) and the horizontal one (a residue of \<open>B\<close>
  against a gap), each gap transition charged the fixed penalty.
\<close>

fun score :: "scoring \<Rightarrow> int \<Rightarrow> Residue list \<Rightarrow> Residue list \<Rightarrow> nat \<Rightarrow> nat \<Rightarrow> int" where
  "score sub gap A B 0 0 = 0"
| "score sub gap A B (Suc i) 0 = score sub gap A B i 0 - gap"
| "score sub gap A B 0 (Suc j) = score sub gap A B 0 j - gap"
| "score sub gap A B (Suc i) (Suc j) =
     max (score sub gap A B i j + sub (A ! i) (B ! j))
         (max (score sub gap A B i (Suc j) - gap) (score sub gap A B (Suc i) j - gap))"

text \<open>
  Modelled from the spec: the traceback walks from a cell back to \<open>(0, 0)\<close>, following a
  predecessor that produced the stored score; ties are broken by the fixed priority
  order (diagonal, vertical, horizontal, or the reverse). Each step emits one symbol
  per sequence, a gap (\<open>None\<close>) for the sequence that did not advance. The result lists
  the steps from \<open>(0, 0)\<close> on.
\<close>

fun traceback ::
  "scoring \<Rightarrow> int \<Rightarrow> tie_break \<Rightarrow> Residue list \<Rightarrow> Residue list \<Rightarrow> nat \<Rightarrow> nat \<Rightarrow>
   (Residue option \<times> Residue option) list" where
  "traceback sub gap tb A B 0 0 = []"
| "traceback sub gap tb A B (Suc i) 0 = traceback sub gap tb A B i 0 @ [(Some (A ! i), None)]"
| "traceback sub gap tb A B 0 (Suc j) = traceback sub gap tb A B 0 j @ [(None, Some (B ! j))]"
| "traceback sub gap tb A B (Suc i) (Suc j) =
     (let m = score sub gap A B (Suc i) (Suc j);
          diagonal = (m = score sub gap A B i j + sub (A ! i) (B ! j));
          vertical = (m = score sub gap A B i (Suc j) - gap);
          horizontal = (m = score sub gap A B (Suc i) j - gap)
      in case tb of
           DiagonalFirst \<Rightarrow>
             if diagonal then traceback sub gap tb A B i j @ [(Some (A ! i), Some (B ! j))]
             else if vertical then traceback sub gap tb A B i (Suc j) @ [(Some (A ! i), None)]
             else traceback sub gap tb A B (Suc i) j @ [(None, Some (B ! j))]
         | HorizontalFirst \<Rightarrow>
             if horizontal then traceback sub gap tb A B (Suc i) j @ [(None, Some (B ! j))]
             else if vertical then traceback sub gap tb A B i (Suc j) @ [(Some (A ! i), None)]
             else traceback sub gap tb A B i j @ [(Some (A ! i), Some (B ! j))])"

definition align ::
  "scoring \<Rightarrow> int \<Rightarrow> tie_break \<Rightarrow> Residue list \<Rightarrow> Residue list \<Rightarrow>
   Residue option list \<times> Residue option list" where
  "align sub gap tb A B =
     (let steps = traceback sub gap tb A B (length A) (length B)
      in (map fst steps, map snd steps))"

text \<open>
  The score of aligning the first \<open>i\<close> residues of \<open>s\<close> with themselves, position by
  position: the sum of their self-substitution scores. A scoring that is used as the
  concrete example: 1 for equal residues, -1 for different ones.
\<close>

definition self_total :: "scoring \<Rightarrow> Residue list \<Rightarrow> nat \<Rightarrow> int" where
  "self_total sub s i = (\<Sum>k<i. sub (s ! k) (s ! k))"


section \<open>Properties of probabilities and emission tables\<close>

lemma real_float64_simps:
  "F_zero real_float64 = 0"
  "MaxFloat64 real_float64 = 2 ^ 1024 - 2 ^ 971"
  "F_neg real_float64 x = - x"
  "F_div real_float64 x y = x / y"
  "math_Log real_float64 x = ln x"
  "math_Exp real_float64 x = exp x"
  "float64_of_int real_float64 n = real_of_int (sint n)"
  by (simp_all add: real_float64_def)

lemma fold_map_upd:
  "fold (\<lambda>r m. m(r \<mapsto> f r)) xs m = (\<lambda>r. if r \<in> set xs then Some (f r) else m r)"
  by (induction xs arbitrary: m) (auto simp: fun_eq_iff)

lemma NewEProbs_fold:
  "fold (\<lambda>residue ep. ep(residue \<mapsto> v)) alphabet m =
     (\<lambda>r. if r \<in> set alphabet then Some v else m r)"
  by (induction alphabet arbitrary: m) (auto simp: fun_eq_iff)

lemma NewEProbs_apply:
  "NewEProbs F alphabet r = (if r \<in> set alphabet then Some (MinProb F) else None)"
  by (simp add: NewEProbs_def NewEProbs_fold)

lemma dom_NewEProbs: "dom (NewEProbs F alphabet) = set alphabet"
  by (auto simp: NewEProbs_apply dom_def)

text \<open>
  What the code contributes to a round trip through \<open>String\<close> and \<open>NewProb\<close>: the
  sentinel is written as \<open>*\<close> and read back as the sentinel, and any other value is
  handed to the formatter and its text to the parser. That the parser returns the value
  the formatter was given is a property of the two library functions on floating-point
  numbers, a hypothesis here.
\<close>

lemma sentinel_round_trip:
  "Prob_String F format (MinProb F) = ''*''"
  "NewProb F parse invalidProb ''*'' = (MinProb F, None)"
  by (simp_all add: Prob_String_def NewProb_def IsMin_def)

lemma other_round_trip:
  assumes "\<not> IsMin F p" and "format p \<noteq> ''*''" and "parse (format p) = Some p"
  shows "NewProb F parse invalidProb (Prob_String F format p) = (p, None)"
  using assms by (simp add: Prob_String_def NewProb_def)

text \<open>
  Claim C9. \<open>Ratio\<close> of a probability that is the \<open>MinProb\<close> sentinel is the float
  constant \<open>0.0\<close>; of any other probability \<open>p\<close> it is \<open>math.Exp(-p)\<close>.
\<close>

theorem Ratio_sentinel_or_exp:
  "(IsMin F p \<longrightarrow> Ratio F p = F_zero F) \<and>
   (\<not> IsMin F p \<longrightarrow> Ratio F p = math_Exp F (F_neg F p))"
  by (simp add: Ratio_def)

theorem Ratio_sentinel_or_exp_witness:
  "IsMin real_float64 (2 ^ 1024 - 2 ^ 971) \<and> Ratio real_float64 (2 ^ 1024 - 2 ^ 971) = 0 \<and>
   \<not> IsMin real_float64 0 \<and> Ratio real_float64 0 = 1"
proof -
  have a: "IsMin real_float64 (2 ^ 1024 - 2 ^ 971)"
    by (simp add: IsMin_def MinProb_def real_float64_simps)
  have b: "\<not> IsMin real_float64 0"
    by (simp add: IsMin_def MinProb_def real_float64_simps)
  from a Ratio_sentinel_or_exp [of real_float64 "2 ^ 1024 - 2 ^ 971"]
  have c: "Ratio real_float64 (2 ^ 1024 - 2 ^ 971) = 0"
    by (simp add: real_float64_simps)
  from b Ratio_sentinel_or_exp [of real_float64 0]
  have d: "Ratio real_float64 0 = 1"
    by (simp add: real_float64_simps)
  from a b c d show ?thesis by blast
qed

text \<open>
  Claim C10. For a residue that is not a key of an emission table (for a table made by
  \<open>NewEProbs\<close>: a residue outside the alphabet), \<open>EmitProb\<close> returns the float constant
  \<open>0\<close>, the zero value of a missing map entry. That value is not the \<open>MinProb\<close> sentinel,
  and \<open>Ratio\<close> decodes it to \<open>math.Exp(-0)\<close>, which is probability 1. No error is
  raised: \<open>EmitProb\<close> is a total function.
\<close>

theorem EmitProb_missing_is_zero:
  assumes "F_zero F \<noteq> MaxFloat64 F"
  shows "(r \<notin> dom ep \<longrightarrow>
            EmitProb F ep r = F_zero F \<and> \<not> IsMin F (EmitProb F ep r) \<and>
            Ratio F (EmitProb F ep r) = math_Exp F (F_neg F (F_zero F))) \<and>
         (r \<notin> set alphabet \<longrightarrow>
            EmitProb F (NewEProbs F alphabet) r = F_zero F \<and>
            EmitProb F (NewEProbs F alphabet) r \<noteq> MinProb F)"
  using assms
  by (auto simp: EmitProb_def NewEProbs_apply Ratio_def IsMin_def MinProb_def dom_def
      split: option.splits)

theorem EmitProb_missing_is_zero_witness:
  "F_zero real_float64 \<noteq> MaxFloat64 real_float64 \<and>
   CHR ''Z'' \<notin> dom (NewEProbs real_float64 ''AC'') \<and> CHR ''Z'' \<notin> set ''AC'' \<and>
   EmitProb real_float64 (NewEProbs real_float64 ''AC'') CHR ''Z'' = 0 \<and>
   Ratio real_float64 (EmitProb real_float64 (NewEProbs real_float64 ''AC'') CHR ''Z'') = 1 \<and>
   EmitProb real_float64 (NewEProbs real_float64 ''AC'') CHR ''A'' = 2 ^ 1024 - 2 ^ 971"
proof -
  have h: "F_zero real_float64 \<noteq> MaxFloat64 real_float64"
    by (simp add: real_float64_simps)
  have d: "CHR ''Z'' \<notin> dom (NewEProbs real_float64 ''AC'')"
    by (simp add: dom_NewEProbs)
  have s: "CHR ''Z'' \<notin> set ''AC''"
    by simp
  have a: "EmitProb real_float64 (NewEProbs real_float64 ''AC'') CHR ''A'' = 2 ^ 1024 - 2 ^ 971"
    by (simp add: EmitProb_def NewEProbs_apply MinProb_def real_float64_simps)
  note t = EmitProb_missing_is_zero [OF h, of "CHR ''Z''" "NewEProbs real_float64 ''AC''" "''AC''"]
  from t d have z: "EmitProb real_float64 (NewEProbs real_float64 ''AC'') CHR ''Z'' = 0"
    by (simp add: real_float64_simps)
  from t d have "Ratio real_float64 (EmitProb real_float64 (NewEProbs real_float64 ''AC'') CHR ''Z'') =
      math_Exp real_float64 (F_neg real_float64 (F_zero real_float64))"
    by blast
  then have r: "Ratio real_float64 (EmitProb real_float64 (NewEProbs real_float64 ''AC'') CHR ''Z'') = 1"
    by (simp add: real_float64_simps)
  from h d s z r a show ?thesis by blast
qed

section \<open>Properties of \<open>Add\<close>\<close>

lemma Len_Add_range [simp]: "Len (Add_range fp s lo hi) = Len fp"
  by (simp add: Add_range_def Len_def)

lemma FrequencyProfile_eqI:
  "Freqs a = Freqs b \<Longrightarrow> FAlphabet a = FAlphabet b \<Longrightarrow> a = (b :: FrequencyProfile)"
  by simp

lemma Freqs_Add_range:
  "Freqs (Add_range fp s lo hi) =
     map (\<lambda>c. if lo \<le> c \<and> c < hi
              then incr (Freqs fp ! c) (the (Add_target (Freqs fp ! c) (Residues s ! c)))
              else Freqs fp ! c) [0..<Len fp]"
  by (simp add: Add_range_def)

lemma FAlphabet_Add_range [simp]: "FAlphabet (Add_range fp s lo hi) = FAlphabet fp"
  by (simp add: Add_range_def)

lemma Add_range_empty [simp]: "Add_range fp s lo lo = fp"
proof (rule FrequencyProfile_eqI)
  have "\<not> (lo \<le> c \<and> c < lo)" for c by simp
  then show "Freqs (Add_range fp s lo lo) = Freqs fp"
    by (simp only: Freqs_Add_range Len_def if_False map_nth)
qed simp

lemma Freqs_Add_range_nth:
  "c < Len fp \<Longrightarrow> Freqs (Add_range fp s lo hi) ! c =
     (if lo \<le> c \<and> c < hi
      then incr (Freqs fp ! c) (the (Add_target (Freqs fp ! c) (Residues s ! c)))
      else Freqs fp ! c)"
  by (simp add: Add_range_def Len_def)

lemma Add_range_Suc:
  assumes "lo \<le> hi" "hi < Len fp"
  shows "incr_column (Add_range fp s lo hi) hi (the (Add_target (Freqs fp ! hi) (Residues s ! hi)))
         = Add_range fp s lo (Suc hi)"
proof (rule FrequencyProfile_eqI)
  show "Freqs (incr_column (Add_range fp s lo hi) hi
          (the (Add_target (Freqs fp ! hi) (Residues s ! hi)))) = Freqs (Add_range fp s lo (Suc hi))"
    using assms
    by (intro nth_equalityI)
      (auto simp: incr_column_def Freqs_Add_range Len_def nth_list_update)
qed (simp add: incr_column_def)

lemma Add_loop_step:
  assumes "column < Len fp" "column < length (Residues s)"
    and "Add_target (Freqs fp ! column) (Residues s ! column) = Some t"
  shows "Add_loop fp s column = Add_loop (incr_column fp column t) s (Suc column)"
  using assms
  by (subst Add_loop.simps) (auto simp: Add_target_def Let_def split: if_splits)

lemma Add_loop_stop:
  assumes "column < Len fp" "column < length (Residues s)"
    and "Add_target (Freqs fp ! column) (Residues s ! column) = None"
  shows "Add_loop fp s column = (Some (UnrecognizedResidue (Residues s ! column)), fp)"
  using assms
  by (subst Add_loop.simps) (auto simp: Add_target_def Let_def split: if_splits)

lemma Add_loop_end: "Add_loop fp s (Len fp) = (None, fp)"
  by (subst Add_loop.simps) simp

lemma Add_loop_range:
  assumes "length (Residues s) = Len fp"
    and "lo \<le> hi" "hi \<le> Len fp"
    and "\<forall>c. lo \<le> c \<and> c < hi \<longrightarrow> Add_target (Freqs fp ! c) (Residues s ! c) \<noteq> None"
  shows "Add_loop fp s lo = Add_loop (Add_range fp s lo hi) s hi"
  using assms(2-4)
proof (induction hi)
  case 0
  then show ?case by simp
next
  case (Suc hi)
  show ?case
  proof (cases "lo = Suc hi")
    case True
    then show ?thesis by simp
  next
    case False
    with Suc.prems have le: "lo \<le> hi" and lt: "hi < Len fp" by simp_all
    from Suc.prems le obtain t where t: "Add_target (Freqs fp ! hi) (Residues s ! hi) = Some t"
      by (metis lessI not_None_eq)
    have "Add_loop fp s lo = Add_loop (Add_range fp s lo hi) s hi"
      using Suc.IH le lt Suc.prems by simp
    also have "\<dots> = Add_loop (incr_column (Add_range fp s lo hi) hi t) s (Suc hi)"
      using lt t assms(1) by (intro Add_loop_step) (simp_all add: Freqs_Add_range_nth)
    also have "incr_column (Add_range fp s lo hi) hi t = Add_range fp s lo (Suc hi)"
      using Add_range_Suc [OF le lt, of s] t by simp
    finally show ?thesis .
  qed
qed

lemma Add_ok:
  assumes "Sequence_Len s = Len fp"
    and "\<forall>c<Len fp. Add_target (Freqs fp ! c) (Residues s ! c) \<noteq> None"
  shows "Add fp s = (None, Add_range fp s 0 (Len fp))"
proof -
  have "Add_loop fp s 0 = Add_loop (Add_range fp s 0 (Len fp)) s (Len fp)"
    using assms by (intro Add_loop_range) (simp_all add: Sequence_Len_def)
  also have "\<dots> = (None, Add_range fp s 0 (Len fp))"
    using Add_loop_end [of "Add_range fp s 0 (Len fp)" s] by simp
  finally show ?thesis using assms(1) by (simp add: Add_def)
qed

lemma Add_fail:
  assumes "Sequence_Len s = Len fp" and "k < Len fp"
    and "Add_target (Freqs fp ! k) (Residues s ! k) = None"
    and "\<forall>c<k. Add_target (Freqs fp ! c) (Residues s ! c) \<noteq> None"
  shows "Add fp s = (Some (UnrecognizedResidue (Residues s ! k)), Add_range fp s 0 k)"
proof -
  have "Add_loop fp s 0 = Add_loop (Add_range fp s 0 k) s k"
    using assms by (intro Add_loop_range) (simp_all add: Sequence_Len_def)
  also have "\<dots> = (Some (UnrecognizedResidue (Residues s ! k)), Add_range fp s 0 k)"
    using assms by (intro Add_loop_stop) (simp_all add: Sequence_Len_def Freqs_Add_range_nth)
  finally show ?thesis using assms(1) by (simp add: Add_def)
qed



lemma Len_NewFrequencyProfileAlphabet [simp]:
  "Len (NewFrequencyProfileAlphabet columns alphabet) = columns"
  by (simp add: Len_def NewFrequencyProfileAlphabet_def)

lemma FAlphabet_NewFrequencyProfileAlphabet [simp]:
  "FAlphabet (NewFrequencyProfileAlphabet columns alphabet) = alphabet"
  by (simp add: NewFrequencyProfileAlphabet_def)




text \<open>
  The invariant is established by \<open>NewFrequencyProfileAlphabet\<close> (above) and kept by
  \<open>Add\<close>, whether it returns or panics: \<open>Add\<close> only stores to keys that are present.
\<close>

lemma Add_target_in_dom: "Add_target col r = Some t \<Longrightarrow> t \<in> dom col"
  by (auto simp: Add_target_def split: if_splits)

lemma dom_incr: "dom (incr col r) = insert r (dom col)"
  by (simp add: incr_def)

lemma Add_result_range:
  assumes "Sequence_Len s = Len fp"
  shows "\<exists>k\<le>Len fp. snd (Add fp s) = Add_range fp s 0 k \<and>
           (\<forall>c<k. Add_target (Freqs fp ! c) (Residues s ! c) \<noteq> None)"
proof (cases "\<forall>c<Len fp. Add_target (Freqs fp ! c) (Residues s ! c) \<noteq> None")
  case True
  from Add_ok [OF assms True] True show ?thesis by auto
next
  case False
  then have "\<exists>c. c < Len fp \<and> Add_target (Freqs fp ! c) (Residues s ! c) = None" by auto
  then obtain k where k: "k < Len fp \<and> Add_target (Freqs fp ! k) (Residues s ! k) = None"
    and min: "\<forall>c<k. \<not> (c < Len fp \<and> Add_target (Freqs fp ! c) (Residues s ! c) = None)"
    unfolding exists_least_iff [of "\<lambda>c. c < Len fp \<and> Add_target (Freqs fp ! c) (Residues s ! c) = None"]
    by blast
  from k min have all: "\<forall>c<k. Add_target (Freqs fp ! c) (Residues s ! c) \<noteq> None"
    by (meson less_trans)
  from k have lt: "k < Len fp" and "Add_target (Freqs fp ! k) (Residues s ! k) = None" by blast+
  from Add_fail [OF assms this all] have "snd (Add fp s) = Add_range fp s 0 k" by simp
  with all lt show ?thesis by (intro exI [of _ k]) simp
qed

lemma wf_Add:
  assumes "wf_FrequencyProfile fp"
  shows "wf_FrequencyProfile (snd (Add fp s))"
proof (cases "Sequence_Len s = Len fp")
  case False
  with assms show ?thesis by (simp add: Add_def)
next
  case True
  from Add_result_range [OF True] obtain k where k: "k \<le> Len fp"
    and eq: "snd (Add fp s) = Add_range fp s 0 k"
    and ok: "\<forall>c<k. Add_target (Freqs fp ! c) (Residues s ! c) \<noteq> None"
    by blast
  have "dom (Freqs (Add_range fp s 0 k) ! c) = set (FAlphabet fp)" if c: "c < Len fp" for c
  proof -
    from assms c have d: "dom (Freqs fp ! c) = set (FAlphabet fp)"
      by (simp add: wf_FrequencyProfile_def Len_def)
    show ?thesis
    proof (cases "c < k")
      case True
      with ok obtain t where t: "Add_target (Freqs fp ! c) (Residues s ! c) = Some t" by auto
      from Add_target_in_dom [OF t] d True c show ?thesis
        by (auto simp: Freqs_Add_range_nth t dom_incr)
    next
      case False
      with c d show ?thesis by (simp add: Freqs_Add_range_nth)
    qed
  qed
  note cols = this
  show ?thesis
    unfolding eq wf_FrequencyProfile_def
  proof
    fix col assume "col \<in> set (Freqs (Add_range fp s 0 k))"
    then obtain c where "c < length (Freqs (Add_range fp s 0 k))"
      and "col = Freqs (Add_range fp s 0 k) ! c"
      by (auto simp: in_set_conv_nth)
    moreover have "length (Freqs (Add_range fp s 0 k)) = Len fp"
      using Len_Add_range [of fp s 0 k] by (simp add: Len_def)
    ultimately show "dom col = set (FAlphabet (Add_range fp s 0 k))"
      using cols by simp
  qed
qed

section \<open>Properties of \<open>Profile\<close>\<close>

lemma nullemit_of_apply:
  "nullemit_of F null nulltot r =
     (if r \<in> set (FAlphabet null)
      then Some (F_div F (float64_of_int F (count (Freqs null ! 0) r)) (float64_of_int F nulltot))
      else None)"
  by (simp add: nullemit_of_def fold_map_upd)

lemma Profile_residue_eq:
  assumes "residue \<in> set (FAlphabet null)"
  shows "Profile_residue F fp null (nullemit_of F null nulltot) column tot residue p =
     set_emission p column residue
       (log_odds F (Freqs null ! 0) nulltot (Freqs fp ! column) tot residue)"
  using assms by (simp add: Profile_residue_def log_odds_def nullemit_of_apply Let_def)

lemma Profile_eqI:
  "Emissions a = Emissions b \<Longrightarrow> PAlphabet a = PAlphabet b \<Longrightarrow> a = (b :: 'f Profile)"
  by simp

lemma fold_set_emission:
  assumes "column < length (Emissions p)"
  shows "fold (\<lambda>r q. set_emission q column r (v r)) xs p =
     p\<lparr>Emissions := (Emissions p)[column :=
          (\<lambda>r. if r \<in> set xs then Some (v r) else (Emissions p ! column) r)]\<rparr>"
  using assms
proof (induction xs arbitrary: p)
  case Nil
  then show ?case by (intro Profile_eqI) simp_all
next
  case (Cons x xs)
  have len: "column < length (Emissions (set_emission p column x (v x)))"
    using Cons.prems by (simp add: set_emission_def)
  have nth: "Emissions (set_emission p column x (v x)) ! column = (Emissions p ! column)(x \<mapsto> v x)"
    using Cons.prems by (simp add: set_emission_def)
  have upd: "(Emissions (set_emission p column x (v x)))[column := m] = (Emissions p)[column := m]" for m
    by (simp add: set_emission_def)
  have "(\<lambda>r. if r \<in> set xs then Some (v r) else ((Emissions p ! column)(x \<mapsto> v x)) r) =
        (\<lambda>r. if r \<in> set (x # xs) then Some (v r) else (Emissions p ! column) r)"
    by (auto simp: fun_eq_iff)
  then show ?case
    by (simp only: fold_simps Cons.IH [OF len] nth upd)
      (intro Profile_eqI; simp add: set_emission_def)
qed

lemma Profile_column_eq:
  assumes "column < length (Emissions p)" "FAlphabet null = FAlphabet fp"
  shows "Profile_column F fp null (nullemit_of F null nulltot) column p =
     p\<lparr>Emissions := (Emissions p)[column :=
          (\<lambda>r. if r \<in> set (FAlphabet fp)
               then Some (log_odds F (Freqs null ! 0) nulltot (Freqs fp ! column)
                            (freqTotal (Freqs fp ! column)) r)
               else (Emissions p ! column) r)]\<rparr>"
proof -
  have "fold (Profile_residue F fp null (nullemit_of F null nulltot) column tot) xs q =
        fold (\<lambda>r q. set_emission q column r
                (log_odds F (Freqs null ! 0) nulltot (Freqs fp ! column) tot r)) xs q"
    if "set xs \<subseteq> set (FAlphabet null)" for xs q tot
    using that by (induction xs arbitrary: q) (simp_all add: Profile_residue_eq)
  then show ?thesis
    using assms by (simp add: Profile_column_def Let_def fold_set_emission)
qed

lemma fold_Profile_column:
  assumes "FAlphabet null = FAlphabet fp" "k \<le> length (Emissions p)"
  shows "fold (Profile_column F fp null (nullemit_of F null nulltot)) [0..<k] p =
     p\<lparr>Emissions := map (\<lambda>c. if c < k
          then (\<lambda>r. if r \<in> set (FAlphabet fp)
                    then Some (log_odds F (Freqs null ! 0) nulltot (Freqs fp ! c)
                                 (freqTotal (Freqs fp ! c)) r)
                    else (Emissions p ! c) r)
          else Emissions p ! c) [0..<length (Emissions p)]\<rparr>"
  using assms(2)
proof (induction k)
  case 0
  show ?case by (intro Profile_eqI) (simp_all add: map_nth)
next
  case (Suc k)
  then have k: "k < length (Emissions p)" by simp
  show ?case
    using k
    apply (simp add: Suc.IH [OF less_imp_le [OF k]] Profile_column_eq [OF _ assms(1)])
    apply (intro Profile_eqI nth_equalityI)
      apply (auto simp: nth_list_update less_Suc_eq)
    done
qed


lemma freqTotal_count: "freqTotal col = (\<Sum>x \<in> dom col. count col x)"
  unfolding freqTotal_def by (rule sum.cong) (auto simp: count_def)

lemma Profile_result:
  assumes "Len null = 1" "FAlphabet null = FAlphabet fp"
  shows "FrequencyProfile_Profile F fp null =
     Inr \<lparr>Emissions = map (\<lambda>c r. if r \<in> set (FAlphabet fp)
                  then Some (log_odds F (Freqs null ! 0) (freqTotal (Freqs null ! 0))
                               (Freqs fp ! c) (freqTotal (Freqs fp ! c)) r)
                  else None) [0..<Len fp],
          PAlphabet = FAlphabet fp\<rparr>"
proof -
  let ?p = "NewProfileAlphabet F (Len fp) (FAlphabet fp)"
  let ?v = "\<lambda>c. log_odds F (Freqs null ! 0) (freqTotal (Freqs null ! 0))
                 (Freqs fp ! c) (freqTotal (Freqs fp ! c))"
  let ?q = "fold (Profile_column F fp null (nullemit_of F null (freqTotal (Freqs null ! 0))))
              [0..<Len fp] ?p"
  have len: "length (Emissions ?p) = Len fp"
    by (simp add: NewProfileAlphabet_def)
  have nth: "Emissions ?p ! c = NewEProbs F (FAlphabet fp)" if "c < Len fp" for c
    using that by (simp add: NewProfileAlphabet_def)
  have q: "?q = ?p\<lparr>Emissions := map (\<lambda>c. if c < Len fp
              then (\<lambda>r. if r \<in> set (FAlphabet fp) then Some (?v c r) else (Emissions ?p ! c) r)
              else Emissions ?p ! c) [0..<length (Emissions ?p)]\<rparr>"
    by (rule fold_Profile_column [OF assms(2)]) (simp add: len)
  have E: "Emissions ?q =
      map (\<lambda>c r. if r \<in> set (FAlphabet fp) then Some (?v c r) else None) [0..<Len fp]"
    unfolding q by (rule nth_equalityI; simp add: len nth NewEProbs_apply fun_eq_iff)
  have P: "PAlphabet ?q = FAlphabet fp"
    unfolding q by (simp add: NewProfileAlphabet_def)
  have "?q = \<lparr>Emissions = map (\<lambda>c r. if r \<in> set (FAlphabet fp) then Some (?v c r) else None)
                              [0..<Len fp],
              PAlphabet = FAlphabet fp\<rparr>"
    by (rule Profile_eqI) (simp_all only: E P Profile.simps)
  then show ?thesis
    using assms by (simp add: FrequencyProfile_Profile_def Equals_def Let_def)
qed

text \<open>
  Claim C1. When the background \<open>null\<close> has exactly one column and the same alphabet as
  \<open>fp\<close>, \<open>Profile\<close> returns a profile with as many columns as \<open>fp\<close> and the alphabet of
  \<open>fp\<close>. In every column \<open>c\<close> the emission table has exactly the residues of the alphabet
  as keys, and for each such residue \<open>r\<close> the emission is \<open>MinProb\<close> if the background
  count of \<open>r\<close> or the count of \<open>r\<close> in column \<open>c\<close> is zero, and otherwise
  \<open>-math.Log((count / colTotal) / (backgroundCount / bgTotal))\<close> in float64 arithmetic,
  where \<open>colTotal\<close> is the sum of all counts of column \<open>c\<close> and \<open>bgTotal\<close> the sum of all
  counts of the background column.
\<close>

theorem Profile_log_odds:
  assumes "Len null = 1" and "FAlphabet null = FAlphabet fp"
  shows "\<exists>p. FrequencyProfile_Profile F fp null = Inr p \<and>
           length (Emissions p) = Len fp \<and> PAlphabet p = FAlphabet fp \<and>
           (\<forall>c<Len fp. dom (Emissions p ! c) = set (FAlphabet fp) \<and>
              (\<forall>r \<in> set (FAlphabet fp).
                 (Emissions p ! c) r = Some
                   (if count (Freqs null ! 0) r = 0 \<or> count (Freqs fp ! c) r = 0 then MinProb F
                    else F_neg F (math_Log F
                      (F_div F
                         (F_div F (float64_of_int F (count (Freqs fp ! c) r))
                                  (float64_of_int F (\<Sum>x \<in> dom (Freqs fp ! c). count (Freqs fp ! c) x)))
                         (F_div F (float64_of_int F (count (Freqs null ! 0) r))
                                  (float64_of_int F
                                     (\<Sum>x \<in> dom (Freqs null ! 0). count (Freqs null ! 0) x))))))))"
  unfolding Profile_result [OF assms]
  by (auto simp: log_odds_def freqTotal_count dom_def)


theorem Profile_log_odds_witness:
  "Len \<lparr>Freqs = [[CHR ''A'' \<mapsto> 2, CHR ''C'' \<mapsto> 2]], FAlphabet = ''AC''\<rparr> = 1 \<and>
   (\<exists>p. FrequencyProfile_Profile real_float64
          \<lparr>Freqs = [[CHR ''A'' \<mapsto> 1, CHR ''C'' \<mapsto> 0]], FAlphabet = ''AC''\<rparr>
          \<lparr>Freqs = [[CHR ''A'' \<mapsto> 2, CHR ''C'' \<mapsto> 2]], FAlphabet = ''AC''\<rparr> = Inr p \<and>
        length (Emissions p) = 1 \<and>
        (Emissions p ! 0) CHR ''A'' = Some (- ln 2) \<and>
        (Emissions p ! 0) CHR ''C'' = Some (2 ^ 1024 - 2 ^ 971))"
proof -
  let ?fp = "\<lparr>Freqs = [[CHR ''A'' \<mapsto> 1, CHR ''C'' \<mapsto> 0]], FAlphabet = ''AC''\<rparr>"
  let ?null = "\<lparr>Freqs = [[CHR ''A'' \<mapsto> 2, CHR ''C'' \<mapsto> 2]], FAlphabet = ''AC''\<rparr>"
  have l: "Len ?null = 1" by (simp add: Len_def)
  have a: "FAlphabet ?null = FAlphabet ?fp" by simp
  from Profile_log_odds [OF l a, of real_float64]
  obtain p where p: "FrequencyProfile_Profile real_float64 ?fp ?null = Inr p"
    and n: "length (Emissions p) = Len ?fp"
    and e: "\<forall>c<Len ?fp. dom (Emissions p ! c) = set (FAlphabet ?fp) \<and>
              (\<forall>r \<in> set (FAlphabet ?fp).
                 (Emissions p ! c) r = Some
                   (if count (Freqs ?null ! 0) r = 0 \<or> count (Freqs ?fp ! c) r = 0
                    then MinProb real_float64
                    else F_neg real_float64 (math_Log real_float64
                      (F_div real_float64
                         (F_div real_float64 (float64_of_int real_float64 (count (Freqs ?fp ! c) r))
                            (float64_of_int real_float64
                               (\<Sum>x \<in> dom (Freqs ?fp ! c). count (Freqs ?fp ! c) x)))
                         (F_div real_float64 (float64_of_int real_float64 (count (Freqs ?null ! 0) r))
                            (float64_of_int real_float64
                               (\<Sum>x \<in> dom (Freqs ?null ! 0). count (Freqs ?null ! 0) x)))))))"
    by blast
  from n have n1: "length (Emissions p) = 1" by (simp add: Len_def)
  from e have eA: "(Emissions p ! 0) CHR ''A'' = Some (- ln 2)"
    by (simp add: Len_def count_def real_float64_simps MinProb_def)
  from e have eC: "(Emissions p ! 0) CHR ''C'' = Some (2 ^ 1024 - 2 ^ 971)"
    by (simp add: Len_def count_def real_float64_simps MinProb_def)
  from l p n1 eA eC show ?thesis by blast
qed

section \<open>Properties of \<open>Slice\<close>\<close>

lemma sint_sub_nonneg:
  fixes a b :: "64 word"
  assumes "0 \<le> sint a" "sint a \<le> sint b"
  shows "sint (b - a) = sint b - sint a"
proof -
  have ub: "sint b < 2 ^ 63" using sint_lt [of b] by simp
  have "(0::int) \<le> sint b - sint a" using assms by linarith
  moreover have "- (2 ^ 63) \<le> (0::int)" by simp
  ultimately have lo: "- (2 ^ 63) \<le> sint b - sint a" by (rule order_trans [rotated])
  have "sint b - sint a \<le> sint b" using assms by linarith
  from this ub have hi: "sint b - sint a < 2 ^ 63" by (rule le_less_trans)
  from lo hi show ?thesis
    by (simp add: sint_word_ariths signed_take_bit_int_eq_self)
qed

lemma copy_nodes_new:
  assumes "node_arrays h = A @ [a]" "s_array dst = length A" "s_off dst = 0"
  shows "copy_nodes h dst src =
     h\<lparr>node_arrays := A @ [take (min (s_len dst) (s_len src)) (elems h src) @
                            drop (min (s_len dst) (s_len src)) a]\<rparr>"
  using assms by (simp add: copy_nodes_def Let_def)

lemma set_Transitions_new:
  assumes "node_arrays h = A @ [a]" "s_array s = length A" "s_off s = 0"
  shows "set_Transitions h s i f =
     h\<lparr>node_arrays := A @ [a[i := (a ! i)\<lparr>Transitions := f (Transitions (a ! i))\<rparr>]]\<rparr>"
  using assms by (simp add: set_Transitions_def Let_def)

lemma force_all:
  "t\<lparr>MM := a, MI := b, MD := c, IM := d, II := e, DM := f, DD := g\<rparr> =
   \<lparr>MM = a, MI = b, MD = c, IM = d, II = e, DM = f, DD = g\<rparr>"
  by simp

lemma Slice_success:
  assumes p: "p < length (hmms h)"
    and wf: "wf_slice h (Nodes (hmms h ! p))"
    and b: "0 \<le> sint start" "sint start < sint end"
           "sint end \<le> int (s_cap (Nodes (hmms h ! p)))"
  shows "Slice F (Some p) start end h =
     (Inr (length (hmms h)),
      h\<lparr>node_arrays := node_arrays h @
           [Slice_array F h (Nodes (hmms h ! p)) (nat (sint start)) (nat (sint end))],
        hmms := hmms h @
           [\<lparr>Nodes = \<lparr>s_array = length (node_arrays h), s_off = 0,
                       s_len = nat (sint end) - nat (sint start),
                       s_cap = nat (sint end) - nat (sint start)\<rparr>,
             HAlphabet = HAlphabet (hmms h ! p), Null = Null (hmms h ! p)\<rparr>]\<rparr>)"
proof -
  let ?src = "Nodes (hmms h ! p)"
  define lo hi n where "lo = nat (sint start)" and "hi = nat (sint end)" and "n = hi - lo"
  define a where "a = take n (drop (s_off ?src + lo) (node_arrays h ! s_array ?src))"
  define nodes where "nodes = \<lparr>s_array = length (node_arrays h), s_off = 0, s_len = n, s_cap = n\<rparr>"
  define h1 where "h1 = h\<lparr>node_arrays := node_arrays h @ [replicate n (zero_HMMNode F)]\<rparr>"
  have d: "sint (end - start) = sint end - sint start"
    using b by (intro sint_sub_nonneg) simp_all
  have n: "nat (sint (end - start)) = n" "0 < n" "\<not> sint (end - start) < 0"
    using b d by (simp_all add: n_def lo_def hi_def)
  have arr: "s_array ?src < length (node_arrays h)"
    and cap: "s_off ?src + s_cap ?src \<le> length (node_arrays h ! s_array ?src)"
    using wf by (simp_all add: wf_slice_def)
  have hi: "hi \<le> s_cap ?src" using b by (simp add: hi_def)
  have el: "elems h1 (reslice ?src lo hi) = a"
    using arr by (simp add: elems_def reslice_def nth_append a_def h1_def n_def)
  have la: "length a = n" using cap hi by (simp add: a_def n_def)
  have "copy_nodes h1 nodes (reslice ?src lo hi) =
      h1\<lparr>node_arrays := node_arrays h @
         [take (min (s_len nodes) (s_len (reslice ?src lo hi))) (elems h1 (reslice ?src lo hi)) @
          drop (min (s_len nodes) (s_len (reslice ?src lo hi))) (replicate n (zero_HMMNode F))]\<rparr>"
    by (rule copy_nodes_new) (simp_all add: nodes_def h1_def)
  also have "min (s_len nodes) (s_len (reslice ?src lo hi)) = n"
    by (simp add: nodes_def reslice_def n_def)
  finally have c: "copy_nodes h1 nodes (reslice ?src lo hi) = h\<lparr>node_arrays := node_arrays h @ [a]\<rparr>"
    unfolding el by (simp add: la h1_def)
  have st: "set_Transitions (h\<lparr>node_arrays := node_arrays h @ [x]\<rparr>) nodes i g =
            h\<lparr>node_arrays := node_arrays h @ [x[i := (x ! i)\<lparr>Transitions := g (Transitions (x ! i))\<rparr>]]\<rparr>"
    for x i g
    by (subst set_Transitions_new [where A = "node_arrays h" and a = x]) (simp_all add: nodes_def)
  have nth: "n - 1 < length a" using la n(2) by simp
  have bounds: "0 \<le> sint start \<and> sint start \<le> sint end \<and> sint end \<le> int (s_cap ?src)"
    using b by (simp add:)
  have hm: "hmms h1 = hmms h" by (simp add: h1_def)
  have "Slice F (Some p) start end h =
     (Inr (length (hmms h)),
      h\<lparr>node_arrays := node_arrays h @
           [a[n - 1 := (a ! (n - 1))\<lparr>Transitions := forced_Transitions F\<rparr>]],
        hmms := hmms h @ [\<lparr>Nodes = nodes, HAlphabet = HAlphabet (hmms h ! p),
                            Null = Null (hmms h ! p)\<rparr>]\<rparr>)"
    unfolding Slice_def Let_def n(1)
    unfolding nodes_def [symmetric] h1_def [symmetric] hm lo_def [symmetric] hi_def [symmetric]
    using p n(2,3) nth bounds
    by (simp add: c st forced_Transitions_def force_all)
  then show ?thesis
    by (simp add: Slice_array_def Let_def a_def n_def nodes_def lo_def hi_def)
qed


lemma heap_extends_refl: "heap_extends h h"
  by (simp add: heap_extends_def)

lemma heap_extends_alloc_nodes:
  "heap_extends h (h\<lparr>node_arrays := node_arrays h @ [x]\<rparr>)"
  by (simp add: heap_extends_def)

lemma heap_extends_alloc_both:
  "heap_extends h (h\<lparr>node_arrays := node_arrays h @ [x], hmms := hmms h @ [y]\<rparr>)"
  by (simp add: heap_extends_def)

lemma copy_nodes_fresh:
  assumes "s_array dst = length (node_arrays h)" "s_off dst = 0"
  shows "\<exists>y. copy_nodes (h\<lparr>node_arrays := node_arrays h @ [x]\<rparr>) dst src =
              h\<lparr>node_arrays := node_arrays h @ [y]\<rparr>"
  using assms by (auto simp: copy_nodes_def Let_def)

lemma set_Transitions_fresh:
  assumes "s_array s = length (node_arrays h)" "s_off s = 0"
  shows "\<exists>y. set_Transitions (h\<lparr>node_arrays := node_arrays h @ [x]\<rparr>) s i f =
              h\<lparr>node_arrays := node_arrays h @ [y]\<rparr>"
  using assms by (auto simp: set_Transitions_def Let_def)

lemma Slice_heap_extends: "heap_extends h (snd (Slice F hmm start end h))"
proof -
  define n where "n = nat (sint (end - start))"
  define nodes where "nodes = \<lparr>s_array = length (node_arrays h), s_off = 0, s_len = n, s_cap = n\<rparr>"
  have nd: "s_array nodes = length (node_arrays h)" "s_off nodes = 0"
    by (simp_all add: nodes_def)
  define h1 where "h1 = h\<lparr>node_arrays := node_arrays h @ [replicate n (zero_HMMNode F)]\<rparr>"
  have e1: "heap_extends h h1" unfolding h1_def by (rule heap_extends_alloc_nodes)
  have step: "\<exists>y. set_Transitions g nodes i f = h\<lparr>node_arrays := node_arrays h @ [y]\<rparr>"
    if "\<exists>x. g = h\<lparr>node_arrays := node_arrays h @ [x]\<rparr>" for g i f
    using that set_Transitions_fresh [OF nd] by metis
  have "\<exists>x. copy_nodes h1 nodes src = h\<lparr>node_arrays := node_arrays h @ [x]\<rparr>" for src
    unfolding h1_def using copy_nodes_fresh [OF nd] by metis
  note c = this
  have e2: "heap_extends h (copy_nodes h1 nodes src)" for src
    using c [of src] heap_extends_alloc_nodes by metis
  have e9: "heap_extends h
      (let h9 = set_Transitions (set_Transitions (set_Transitions (set_Transitions
                  (set_Transitions (set_Transitions (set_Transitions
                     (copy_nodes h1 nodes src) nodes i f1) nodes i f2) nodes i f3) nodes i f4)
                       nodes i f5) nodes i f6) nodes i f7
       in h9\<lparr>hmms := hmms h9 @ [y]\<rparr>)" for src i f1 f2 f3 f4 f5 f6 f7 y
  proof -
    from step [OF step [OF step [OF step [OF step [OF step [OF step [OF c [of src]]]]]]]]
    obtain z where "set_Transitions (set_Transitions (set_Transitions (set_Transitions
                  (set_Transitions (set_Transitions (set_Transitions
                     (copy_nodes h1 nodes src) nodes i f1) nodes i f2) nodes i f3) nodes i f4)
                       nodes i f5) nodes i f6) nodes i f7 = h\<lparr>node_arrays := node_arrays h @ [z]\<rparr>"
      by blast
    then show ?thesis
      by (simp add: Let_def heap_extends_def)
  qed
  show ?thesis
    unfolding Slice_def Let_def n_def [symmetric]
    unfolding nodes_def [symmetric] h1_def [symmetric]
    using e1 e2 e9 [unfolded Let_def]
    by (simp add: heap_extends_refl split: option.split)
qed

lemma Slice_valid:
  fixes F :: "'f float64_ops"
  assumes "p < length (hmms h)" and "wf_slice h (Nodes (hmms h ! p))"
    and "0 \<le> sint start" and "sint start < sint end"
    and "sint end \<le> int (s_len (Nodes (hmms h ! p)))"
  defines "n \<equiv> nat (sint end - sint start)"
    and "S \<equiv> Slice F (Some p) start end h"
    and "old \<equiv> elems h (Nodes (hmms h ! p))"
  shows "fst S = Inr (length (hmms h))"
    and "hmms (snd S) ! length (hmms h) =
           \<lparr>Nodes = \<lparr>s_array = length (node_arrays h), s_off = 0, s_len = n, s_cap = n\<rparr>,
            HAlphabet = HAlphabet (hmms h ! p), Null = Null (hmms h ! p)\<rparr>"
    and "length (elems (snd S) (Nodes (hmms (snd S) ! length (hmms h)))) = n"
    and "\<And>i. i < n \<Longrightarrow> elems (snd S) (Nodes (hmms (snd S) ! length (hmms h))) ! i =
           (if i = n - 1 then (old ! (nat (sint start) + i))\<lparr>Transitions := forced_Transitions F\<rparr>
            else old ! (nat (sint start) + i))"
    and "0 < n"
proof -
  define src where "src = Nodes (hmms h ! p)"
  define arr where "arr = node_arrays h ! s_array src"
  define lo hi where "lo = nat (sint start)" and "hi = nat (sint end)"
  have wf: "s_len src \<le> s_cap src" "s_off src + s_cap src \<le> length arr"
    using assms(2) by (simp_all add: wf_slice_def src_def arr_def)
  have hi: "hi \<le> s_len src" using assms(5) by (simp add: hi_def src_def)
  have n: "n = hi - lo" "0 < n" "lo + n = hi"
    using assms(3,4) by (simp_all add: n_def lo_def hi_def)
  have cap: "sint end \<le> int (s_cap (Nodes (hmms h ! p)))"
    using assms(5) wf(1) by (simp add: src_def)
  define a where "a = take n (drop (s_off src + lo) arr)"
  define X where "X = a[n - 1 := (a ! (n - 1))\<lparr>Transitions := forced_Transitions F\<rparr>]"
  define new where "new = \<lparr>Nodes = \<lparr>s_array = length (node_arrays h), s_off = 0, s_len = n, s_cap = n\<rparr>,
             HAlphabet = HAlphabet (hmms h ! p), Null = Null (hmms h ! p)\<rparr>"
  define h' where "h' = h\<lparr>node_arrays := node_arrays h @ [X], hmms := hmms h @ [new]\<rparr>"
  have S: "S = (Inr (length (hmms h)), h')"
    unfolding S_def Slice_success [OF assms(1,2,3,4) cap]
    by (simp add: h'_def X_def a_def new_def Slice_array_def Let_def n lo_def hi_def src_def arr_def)
  have la: "length a = n" using wf hi n by (simp add: a_def)
  have lX: "length X = n" by (simp add: X_def la)
  have newq: "hmms h' ! length (hmms h) = new" by (simp add: h'_def)
  have el_new: "elems h' (Nodes new) = X"
    by (simp add: elems_def h'_def new_def lX)
  have old: "old ! (lo + i) = arr ! (s_off src + lo + i)" if "i < n" for i
    using that hi n wf by (simp add: old_def elems_def arr_def src_def add.assoc)
  have a_nth: "a ! i = arr ! (s_off src + lo + i)" if "i < n" for i
    using that hi n wf by (simp add: a_def)
  have X_nth: "X ! i = (if i = n - 1 then (a ! i)\<lparr>Transitions := forced_Transitions F\<rparr> else a ! i)"
    if "i < n" for i
    using that la by (simp add: X_def nth_list_update)
  show "fst S = Inr (length (hmms h))" by (simp add: S)
  show "hmms (snd S) ! length (hmms h) =
           \<lparr>Nodes = \<lparr>s_array = length (node_arrays h), s_off = 0, s_len = n, s_cap = n\<rparr>,
            HAlphabet = HAlphabet (hmms h ! p), Null = Null (hmms h ! p)\<rparr>"
    by (simp add: S newq new_def)
  show "length (elems (snd S) (Nodes (hmms (snd S) ! length (hmms h)))) = n"
    by (simp add: S newq el_new lX)
  show "elems (snd S) (Nodes (hmms (snd S) ! length (hmms h))) ! i =
           (if i = n - 1 then (old ! (nat (sint start) + i))\<lparr>Transitions := forced_Transitions F\<rparr>
            else old ! (nat (sint start) + i))" if "i < n" for i
  proof -
    have "X ! i = (if i = n - 1 then (old ! (lo + i))\<lparr>Transitions := forced_Transitions F\<rparr>
                   else old ! (lo + i))"
      unfolding X_nth [OF that] a_nth [OF that] old [OF that] ..
    then show ?thesis
      unfolding S snd_conv newq el_new lo_def .
  qed
  show "0 < n" by (rule n(2))
qed

text \<open>
  Claim C3. For an HMM whose node slice is well-formed and bounds with
  \<open>0 \<le> start < end \<le> len(nodes)\<close>, \<open>Slice\<close> returns a new HMM with \<open>end - start\<close> nodes.
  The transitions of its last node are \<open>MM = 0\<close>, \<open>MI = MinProb\<close>, \<open>MD = MinProb\<close>,
  \<open>IM = 0\<close>, \<open>II = MinProb\<close>, \<open>DM = 0\<close>, \<open>DD = MinProb\<close>, whatever they were. Every other
  node equals the source node at the same position of the range, and the last node
  equals its source node in every field but \<open>Transitions\<close>. The alphabet and the null
  table are those of the source.
\<close>

theorem Slice_valid_range:
  assumes "p < length (hmms h)" and "wf_slice h (Nodes (hmms h ! p))"
    and "0 \<le> sint start" and "sint start < sint end"
    and "sint end \<le> int (s_len (Nodes (hmms h ! p)))"
  shows "\<exists>q. fst (Slice F (Some p) start end h) = Inr q \<and>
     (let h' = snd (Slice F (Some p) start end h);
          new = elems h' (Nodes (hmms h' ! q));
          old = elems h (Nodes (hmms h ! p));
          lo = nat (sint start);
          n = nat (sint end - sint start)
      in length new = n \<and>
         Transitions (new ! (n - 1)) =
           \<lparr>MM = F_zero F, MI = MinProb F, MD = MinProb F, IM = F_zero F,
            II = MinProb F, DM = F_zero F, DD = MinProb F\<rparr> \<and>
         (\<forall>i<n - 1. new ! i = old ! (lo + i)) \<and>
         new ! (n - 1) = (old ! (lo + (n - 1)))\<lparr>Transitions := Transitions (new ! (n - 1))\<rparr> \<and>
         HAlphabet (hmms h' ! q) = HAlphabet (hmms h ! p) \<and>
         Null (hmms h' ! q) = Null (hmms h ! p))"
proof -
  note v = Slice_valid(1-4) [OF assms, where F = F] Slice_valid(5) [OF assms]
  define n where "n = nat (sint end - sint start)"
  define new where "new = elems (snd (Slice F (Some p) start end h))
      (Nodes (hmms (snd (Slice F (Some p) start end h)) ! length (hmms h)))"
  define old where "old = elems h (Nodes (hmms h ! p))"
  have n: "0 < n" using v(5) by (simp add: n_def)
  have nth: "new ! i = (if i = n - 1
      then (old ! (nat (sint start) + i))\<lparr>Transitions := forced_Transitions F\<rparr>
      else old ! (nat (sint start) + i))" if "i < n" for i
    using v(4) [of i] that by (simp add: n_def new_def old_def)
  have f1: "length new = n" using v(3) by (simp add: n_def new_def)
  have f2: "Transitions (new ! (n - 1)) = forced_Transitions F"
    using nth [of "n - 1"] n by simp
  have f3: "\<forall>i<n - 1. new ! i = old ! (nat (sint start) + i)"
    using nth by simp
  have f4: "new ! (n - 1) =
      (old ! (nat (sint start) + (n - 1)))\<lparr>Transitions := Transitions (new ! (n - 1))\<rparr>"
    unfolding f2 using nth [of "n - 1"] n by simp
  have f5: "HAlphabet (hmms (snd (Slice F (Some p) start end h)) ! length (hmms h)) =
              HAlphabet (hmms h ! p)"
    and f6: "Null (hmms (snd (Slice F (Some p) start end h)) ! length (hmms h)) = Null (hmms h ! p)"
    by (simp_all add: v(2))
  show ?thesis
    apply (rule exI [of _ "length (hmms h)"])
    apply (simp only: Let_def new_def [symmetric] old_def [symmetric] n_def [symmetric]
        forced_Transitions_def [symmetric])
    using v(1) f1 f2 f3 f4 f5 f6 apply metis
    done
qed

lemma example_heap_simps:
  "node_arrays example_heap = [[example_node 1, example_node 2, example_node 3]]"
  "hmms example_heap = [\<lparr>Nodes = \<lparr>s_array = 0, s_off = 0, s_len = 2, s_cap = 3\<rparr>,
               HAlphabet = \<lparr>s_array = 0, s_off = 0, s_len = 2, s_cap = 2\<rparr>,
               Null = Some 0\<rparr>]"
  by (simp_all add: example_heap_def)

lemma example_valid:
  "0 < length (hmms example_heap)" "wf_slice example_heap (Nodes (hmms example_heap ! 0))"
  by (simp_all add: example_heap_simps wf_slice_def)

lemma example_Slice_0_2:
  "Slice real_float64 (Some 0) 0 2 example_heap =
     (Inr 1, example_heap\<lparr>node_arrays := node_arrays example_heap @
          [[example_node 1, (example_node 2)\<lparr>Transitions := forced_Transitions real_float64\<rparr>]],
        hmms := hmms example_heap @
          [\<lparr>Nodes = \<lparr>s_array = 1, s_off = 0, s_len = 2, s_cap = 2\<rparr>,
            HAlphabet = \<lparr>s_array = 0, s_off = 0, s_len = 2, s_cap = 2\<rparr>, Null = Some 0\<rparr>]\<rparr>)"
  by (subst Slice_success)
    (simp_all add: example_valid example_heap_simps Slice_array_def wf_slice_def)


theorem Slice_valid_range_witness:
  "0 < length (hmms example_heap) \<and> wf_slice example_heap (Nodes (hmms example_heap ! 0)) \<and>
   fst (Slice real_float64 (Some 0) 0 2 example_heap) = Inr 1 \<and>
   length (elems (snd (Slice real_float64 (Some 0) 0 2 example_heap))
             (Nodes (hmms (snd (Slice real_float64 (Some 0) 0 2 example_heap)) ! 1))) = 2 \<and>
   elems (snd (Slice real_float64 (Some 0) 0 2 example_heap))
     (Nodes (hmms (snd (Slice real_float64 (Some 0) 0 2 example_heap)) ! 1)) ! 0 = example_node 1 \<and>
   Transitions (elems (snd (Slice real_float64 (Some 0) 0 2 example_heap))
     (Nodes (hmms (snd (Slice real_float64 (Some 0) 0 2 example_heap)) ! 1)) ! 1) =
     \<lparr>MM = 0, MI = 2 ^ 1024 - 2 ^ 971, MD = 2 ^ 1024 - 2 ^ 971, IM = 0,
      II = 2 ^ 1024 - 2 ^ 971, DM = 0, DD = 2 ^ 1024 - 2 ^ 971\<rparr>"
proof -
  let ?S = "Slice real_float64 (Some 0) 0 2 example_heap"
  have b: "0 \<le> sint (0 :: go_int)" "sint (0 :: go_int) < sint (2 :: go_int)"
    "sint (2 :: go_int) \<le> int (s_len (Nodes (hmms example_heap ! 0)))"
    by (simp_all add: example_heap_simps)
  from Slice_valid_range [OF example_valid b, of real_float64]
  obtain q where q: "fst ?S = Inr q"
    and r: "let h' = snd ?S; new = elems h' (Nodes (hmms h' ! q));
                old = elems example_heap (Nodes (hmms example_heap ! 0));
                lo = nat (sint (0 :: go_int)); n = nat (sint (2 :: go_int) - sint (0 :: go_int))
            in length new = n \<and>
               Transitions (new ! (n - 1)) =
                 \<lparr>MM = F_zero real_float64, MI = MinProb real_float64, MD = MinProb real_float64,
                  IM = F_zero real_float64, II = MinProb real_float64, DM = F_zero real_float64,
                  DD = MinProb real_float64\<rparr> \<and>
               (\<forall>i<n - 1. new ! i = old ! (lo + i)) \<and>
               new ! (n - 1) = (old ! (lo + (n - 1)))\<lparr>Transitions := Transitions (new ! (n - 1))\<rparr> \<and>
               HAlphabet (hmms h' ! q) = HAlphabet (hmms example_heap ! 0) \<and>
               Null (hmms h' ! q) = Null (hmms example_heap ! 0)"
    by blast
  from q have q1: "q = 1" by (simp add: example_Slice_0_2)
  from r have
    "length (elems (snd ?S) (Nodes (hmms (snd ?S) ! 1))) = 2 \<and>
     elems (snd ?S) (Nodes (hmms (snd ?S) ! 1)) ! 0 = example_node 1 \<and>
     Transitions (elems (snd ?S) (Nodes (hmms (snd ?S) ! 1)) ! 1) =
       \<lparr>MM = 0, MI = 2 ^ 1024 - 2 ^ 971, MD = 2 ^ 1024 - 2 ^ 971, IM = 0,
        II = 2 ^ 1024 - 2 ^ 971, DM = 0, DD = 2 ^ 1024 - 2 ^ 971\<rparr>"
    unfolding q1 Let_def
    by (simp add: real_float64_simps MinProb_def elems_def example_heap_simps)
  with example_valid q q1 show ?thesis by simp
qed




lemma heap_extends_elems:
  assumes "heap_extends h h'" "s_array s < length (node_arrays h)"
  shows "elems h' s = elems h s"
proof -
  from assms have "node_arrays h' ! s_array s = take (length (node_arrays h)) (node_arrays h') ! s_array s"
    by simp
  with assms(1) show ?thesis by (simp add: heap_extends_def elems_def)
qed

lemma heap_extends_hmm:
  assumes "heap_extends h h'" "p < length (hmms h)"
  shows "hmms h' ! p = hmms h ! p"
proof -
  from assms have "hmms h' ! p = take (length (hmms h)) (hmms h') ! p" by simp
  with assms(1) show ?thesis by (simp add: heap_extends_def)
qed

text \<open>
  Claim C8, as the code has it. For valid bounds, \<open>Slice\<close> leaves every object of the
  heap as it was: the source \<open>HMM\<close> struct, its nodes (their transitions included), the
  emission maps and the alphabets. The nodes of the result are in a newly allocated
  array, so the forced transitions of its last node are not those of any node of the
  source. The copy is one level deep: each node of the result holds the same emission
  maps (\<open>InsEmit\<close>, \<open>MatEmit\<close>) as its source node, and the result has the alphabet and
  the null table of the source, by reference.
\<close>

theorem Slice_source_unchanged:
  assumes "p < length (hmms h)" and "wf_slice h (Nodes (hmms h ! p))"
    and "0 \<le> sint start" and "sint start < sint end"
    and "sint end \<le> int (s_len (Nodes (hmms h ! p)))"
  shows "\<exists>q. fst (Slice F (Some p) start end h) = Inr q \<and>
     (let h' = snd (Slice F (Some p) start end h);
          new = elems h' (Nodes (hmms h' ! q));
          old = elems h (Nodes (hmms h ! p));
          lo = nat (sint start)
      in heap_extends h h' \<and>
         hmms h' ! p = hmms h ! p \<and>
         elems h' (Nodes (hmms h' ! p)) = old \<and>
         s_array (Nodes (hmms h' ! q)) = length (node_arrays h) \<and>
         (\<forall>i<length new. InsEmit (new ! i) = InsEmit (old ! (lo + i)) \<and>
                          MatEmit (new ! i) = MatEmit (old ! (lo + i))) \<and>
         HAlphabet (hmms h' ! q) = HAlphabet (hmms h ! p) \<and>
         Null (hmms h' ! q) = Null (hmms h ! p))"
proof -
  let ?S = "Slice F (Some p) start end h"
  note v = Slice_valid(1-4) [OF assms, where F = F]
  define n where "n = nat (sint end - sint start)"
  define new where "new = elems (snd ?S) (Nodes (hmms (snd ?S) ! length (hmms h)))"
  define old where "old = elems h (Nodes (hmms h ! p))"
  have ext: "heap_extends h (snd ?S)" by (rule Slice_heap_extends)
  have same: "hmms (snd ?S) ! p = hmms h ! p"
    using ext assms(1) by (rule heap_extends_hmm)
  have el: "elems (snd ?S) (Nodes (hmms (snd ?S) ! p)) = old"
    unfolding same old_def using ext assms(2)
    by (intro heap_extends_elems) (simp_all add: wf_slice_def)
  have arr: "s_array (Nodes (hmms (snd ?S) ! length (hmms h))) = length (node_arrays h)"
    and alph: "HAlphabet (hmms (snd ?S) ! length (hmms h)) = HAlphabet (hmms h ! p)"
    and null: "Null (hmms (snd ?S) ! length (hmms h)) = Null (hmms h ! p)"
    by (simp_all add: v(2))
  have len: "length new = n" using v(3) by (simp add: n_def new_def)
  have share: "\<forall>i<length new. InsEmit (new ! i) = InsEmit (old ! (nat (sint start) + i)) \<and>
                 MatEmit (new ! i) = MatEmit (old ! (nat (sint start) + i))"
    unfolding len using v(4) by (simp add: n_def new_def old_def)
  show ?thesis
    apply (rule exI [of _ "length (hmms h)"])
    apply (simp only: Let_def new_def [symmetric] old_def [symmetric])
    using v(1) ext same el arr share alph null apply metis
    done
qed

lemma example_Slice_1_2:
  "Slice real_float64 (Some 0) 1 2 example_heap =
     (Inr 1, example_heap\<lparr>node_arrays := node_arrays example_heap @
          [[(example_node 2)\<lparr>Transitions := forced_Transitions real_float64\<rparr>]],
        hmms := hmms example_heap @
          [\<lparr>Nodes = \<lparr>s_array = 1, s_off = 0, s_len = 1, s_cap = 1\<rparr>,
            HAlphabet = \<lparr>s_array = 0, s_off = 0, s_len = 2, s_cap = 2\<rparr>, Null = Some 0\<rparr>]\<rparr>)"
  by (subst Slice_success)
    (simp_all add: example_valid example_heap_simps Slice_array_def wf_slice_def)

theorem Slice_source_unchanged_witness:
  "0 < length (hmms example_heap) \<and> wf_slice example_heap (Nodes (hmms example_heap ! 0)) \<and>
   fst (Slice real_float64 (Some 0) 1 2 example_heap) = Inr 1 \<and>
   heap_extends example_heap (snd (Slice real_float64 (Some 0) 1 2 example_heap)) \<and>
   elems (snd (Slice real_float64 (Some 0) 1 2 example_heap))
     (Nodes (hmms (snd (Slice real_float64 (Some 0) 1 2 example_heap)) ! 0)) =
     [example_node 1, example_node 2] \<and>
   MatEmit (elems (snd (Slice real_float64 (Some 0) 1 2 example_heap))
     (Nodes (hmms (snd (Slice real_float64 (Some 0) 1 2 example_heap)) ! 1)) ! 0) = Some 2"
proof -
  let ?S = "Slice real_float64 (Some 0) 1 2 example_heap"
  have b: "0 \<le> sint (1 :: go_int)" "sint (1 :: go_int) < sint (2 :: go_int)"
    "sint (2 :: go_int) \<le> int (s_len (Nodes (hmms example_heap ! 0)))"
    by (simp_all add: example_heap_simps)
  have S: "fst ?S = Inr 1"
    by (simp add: example_Slice_1_2)
  from Slice_source_unchanged [OF example_valid b, of real_float64] S
  have r: "let h' = snd ?S; new = elems h' (Nodes (hmms h' ! 1));
               old = elems example_heap (Nodes (hmms example_heap ! 0));
               lo = nat (sint (1 :: go_int))
           in heap_extends example_heap h' \<and>
              hmms h' ! 0 = hmms example_heap ! 0 \<and>
              elems h' (Nodes (hmms h' ! 0)) = old \<and>
              s_array (Nodes (hmms h' ! 1)) = length (node_arrays example_heap) \<and>
              (\<forall>i<length new. InsEmit (new ! i) = InsEmit (old ! (lo + i)) \<and>
                               MatEmit (new ! i) = MatEmit (old ! (lo + i))) \<and>
              HAlphabet (hmms h' ! 1) = HAlphabet (hmms example_heap ! 0) \<and>
              Null (hmms h' ! 1) = Null (hmms example_heap ! 0)"
    by auto
  have len: "length (elems (snd ?S) (Nodes (hmms (snd ?S) ! 1))) = 1"
    by (simp add: example_Slice_1_2 example_heap_simps elems_def)
  have old: "elems example_heap (Nodes (hmms example_heap ! 0)) = [example_node 1, example_node 2]"
    by (simp add: elems_def example_heap_simps)
  from r have e: "heap_extends example_heap (snd ?S)"
    and o': "elems (snd ?S) (Nodes (hmms (snd ?S) ! 0)) =
             elems example_heap (Nodes (hmms example_heap ! 0))"
    and sh: "\<forall>i<length (elems (snd ?S) (Nodes (hmms (snd ?S) ! 1))).
               MatEmit (elems (snd ?S) (Nodes (hmms (snd ?S) ! 1)) ! i) =
               MatEmit (elems example_heap (Nodes (hmms example_heap ! 0)) ! (nat (sint (1 :: go_int)) + i))"
    unfolding Let_def by blast+
  from o' old have o: "elems (snd ?S) (Nodes (hmms (snd ?S) ! 0)) = [example_node 1, example_node 2]"
    by simp
  from sh len have "MatEmit (elems (snd ?S) (Nodes (hmms (snd ?S) ! 1)) ! 0) =
      MatEmit (elems example_heap (Nodes (hmms example_heap ! 0)) ! (nat (sint (1 :: go_int)) + 0))"
    by (metis zero_less_one)
  then have m: "MatEmit (elems (snd ?S) (Nodes (hmms (snd ?S) ! 1)) ! 0) = Some 2"
    unfolding old by (simp add: example_node_def)
  from example_valid S e o m show ?thesis by blast
qed

text \<open>
  Claim C8 as stated says that the slice is a deep copy. It is not: on the example heap
  the result of \<open>Slice(0, 2)\<close> and its source have emission maps in common.
\<close>

theorem Slice_shares_tables_counterexample:
  "fst (Slice real_float64 (Some 0) 0 2 example_heap) = Inr 1 \<and>
   \<not> deep_copy (snd (Slice real_float64 (Some 0) 0 2 example_heap)) 0 1"
  by (simp add: example_Slice_0_2 deep_copy_def table_refs_def elems_def example_heap_simps
      example_node_def)

section \<open>The state after a failure\<close>







section \<open>Properties of the alignment\<close>

lemma self_total_0 [simp]: "self_total sub s 0 = 0"
  by (simp add: self_total_def)






text \<open>
  Some condition on the scoring is needed: with every score and the penalty zero, all
  alignments score the same, and the horizontal-first rule then aligns \<open>GA\<close> with itself
  through gaps.
\<close>

lemma align_zero_scoring:
  "align (\<lambda>a b. 0) 0 HorizontalFirst ''GA'' ''GA'' =
     ([Some CHR ''G'', Some CHR ''A'', None, None], [None, None, Some CHR ''G'', Some CHR ''A''])"
  by (simp add: align_def numeral_2_eq_2)




end
